theory Spec2Isabelle
  imports Complex_Main "HOL-Library.Multiset" "HOL-Library.Char_ord"
    "HOL-Library.List_Lexorder" "HOL-Library.Product_Lexorder"
begin

section \<open>JavaScript strings and \<open>parseInt\<close>\<close>

text \<open>
  A JavaScript string is a sequence of code units; the model uses \<open>string\<close>, whose
  characters stand for the code units below 256 (ASCII and Latin-1). Everything the form
  validation looks at (digits, signs, the hyphen of a date, white space) lies there.
\<close>

text \<open>
  The relational operators on two strings compare code unit by code unit; a proper prefix
  is smaller. \<open>a >= b\<close> on strings is the negation of \<open>a < b\<close>.
\<close>

fun str_lt :: "string \<Rightarrow> string \<Rightarrow> bool" where
  "str_lt [] [] = False"
| "str_lt [] (y # ys) = True"
| "str_lt (x # xs) [] = False"
| "str_lt (x # xs) (y # ys) =
     (if x = y then str_lt xs ys else (of_char x :: nat) < of_char y)"

definition str_ge :: "string \<Rightarrow> string \<Rightarrow> bool" where
  "str_ge a b = (\<not> str_lt a b)"

text \<open>
  White space as \<open>trim\<close> and \<open>parseInt\<close> see it (WhiteSpace and LineTerminator of
  ECMAScript), restricted to the code units below 256: TAB, LF, VT, FF, CR, SP, NBSP.
\<close>

definition is_ws :: "char \<Rightarrow> bool" where
  "is_ws c = ((of_char c :: nat) \<in> {9, 10, 11, 12, 13, 32, 160})"

definition js_trim :: "string \<Rightarrow> string" where
  "js_trim s = rev (dropWhile is_ws (rev (dropWhile is_ws s)))"

text \<open>\<open>!s\<close> on a string: true exactly for the empty string.\<close>

definition js_not :: "string \<Rightarrow> bool" where
  "js_not s = (s = [])"

text \<open>The value of a code unit as a digit (\<open>0-9\<close>, \<open>a-z\<close>, \<open>A-Z\<close>), if it is one.\<close>

definition digit_val :: "char \<Rightarrow> nat option" where
  "digit_val c =
     (let n = (of_char c :: nat) in
      if 48 \<le> n \<and> n \<le> 57 then Some (n - 48)
      else if 97 \<le> n \<and> n \<le> 122 then Some (n - 87)
      else if 65 \<le> n \<and> n \<le> 90 then Some (n - 55)
      else None)"

definition is_radix_digit :: "nat \<Rightarrow> char \<Rightarrow> bool" where
  "is_radix_digit R c = (case digit_val c of None \<Rightarrow> False | Some v \<Rightarrow> v < R)"

definition radix_value :: "nat \<Rightarrow> string \<Rightarrow> nat" where
  "radix_value R Z = foldl (\<lambda>acc c. acc * R + the (digit_val c)) 0 Z"

text \<open>
  \<open>parseInt(s)\<close> with no radix argument, step by step as ECMAScript defines it: skip
  leading white space, read a sign, strip a \<open>0x\<close>/\<open>0X\<close> prefix (radix 16, otherwise 10),
  take the longest prefix of digits of the radix; no digit gives \<open>NaN\<close>, here \<open>None\<close>.
  The result is the exact integer: the Number that JavaScript returns is that integer
  rounded to a double, which keeps its sign and whether it is zero, and \<open>-0\<close> compares
  like \<open>0\<close>, so that the comparison with \<open>0\<close> made by the form validation is the same.
\<close>

definition parseInt :: "string \<Rightarrow> int option" where
  "parseInt inputString =
     (let S = dropWhile is_ws inputString;
          sign = (if S \<noteq> [] \<and> hd S = CHR ''-'' then - 1 else 1 :: int);
          S = (if S \<noteq> [] \<and> (hd S = CHR ''+'' \<or> hd S = CHR ''-'') then tl S else S);
          hex = (2 \<le> length S \<and> (take 2 S = ''0x'' \<or> take 2 S = ''0X''));
          R = (if hex then 16 else 10 :: nat);
          S = (if hex then drop 2 S else S);
          Z = takeWhile (is_radix_digit R) S
      in if Z = [] then None else Some (sign * int (radix_value R Z)))"

text \<open>\<open>x <= 0\<close> for a Number that may be \<open>NaN\<close>: every comparison with \<open>NaN\<close> is false.\<close>

definition num_le_zero :: "int option \<Rightarrow> bool" where
  "num_le_zero x = (case x of None \<Rightarrow> False | Some n \<Rightarrow> n \<le> 0)"

section \<open>The travel form (\<open>app/page.tsx\<close>, \<open>components/TravelPlanner.tsx\<close>)\<close>

record TravelFormData =
  origin :: string
  destination :: string
  startDate :: string
  endDate :: string
  strictDates :: string
  budget :: string
  people :: string
  travelMode :: string
  activities :: "string list"
  visitedBefore :: string
  hotelPreference :: string

text \<open>The state both components start from (\<open>useState\<close>).\<close>

definition initialFormData :: TravelFormData where
  "initialFormData =
     \<lparr>origin = '''', destination = '''', startDate = '''', endDate = '''',
      strictDates = ''yes'', budget = '''', people = ''1'', travelMode = ''plane'',
      activities = [], visitedBefore = ''no'', hotelPreference = ''mid-range''\<rparr>"

text \<open>
  \<open>handleActivityChange\<close>: the functional state update passed to \<open>setFormData\<close>. It is the
  same in both components. \<open>includes\<close> and \<open>!==\<close> on strings are equality of strings.
\<close>

definition handleActivityChange :: "string \<Rightarrow> TravelFormData \<Rightarrow> TravelFormData" where
  "handleActivityChange activity prev =
     prev\<lparr>activities :=
       (if activity \<in> set (activities prev)
        then filter (\<lambda>a. a \<noteq> activity) (activities prev)
        else activities prev @ [activity])\<rparr>"

text \<open>
  \<open>Partial<TravelFormData>\<close> as \<open>validateForm\<close> fills it: a field is absent (\<open>None\<close>) or
  holds its message. Only the fields below are ever assigned.
\<close>

record FormErrors =
  err_origin :: "string option"
  err_destination :: "string option"
  err_startDate :: "string option"
  err_endDate :: "string option"
  err_budget :: "string option"
  err_people :: "string option"
  err_travelMode :: "string option"
  err_activities :: "string option"
  err_hotelPreference :: "string option"

definition no_errors :: FormErrors where
  "no_errors =
     \<lparr>err_origin = None, err_destination = None, err_startDate = None, err_endDate = None,
      err_budget = None, err_people = None, err_travelMode = None, err_activities = None,
      err_hotelPreference = None\<rparr>"

text \<open>\<open>Object.keys(newErrors)\<close>: the fields that were assigned.\<close>

definition object_keys :: "FormErrors \<Rightarrow> string list" where
  "object_keys e =
     (if err_origin e \<noteq> None then [''origin''] else []) @
     (if err_destination e \<noteq> None then [''destination''] else []) @
     (if err_startDate e \<noteq> None then [''startDate''] else []) @
     (if err_endDate e \<noteq> None then [''endDate''] else []) @
     (if err_budget e \<noteq> None then [''budget''] else []) @
     (if err_people e \<noteq> None then [''people''] else []) @
     (if err_travelMode e \<noteq> None then [''travelMode''] else []) @
     (if err_activities e \<noteq> None then [''activities''] else []) @
     (if err_hotelPreference e \<noteq> None then [''hotelPreference''] else [])"

text \<open>
  One check of \<open>validateForm\<close>, \<open>if (c) { newErrors.field = message }\<close>: the assignment
  is made when the condition holds, and the object is left as it is otherwise.
\<close>

definition assign_if :: "bool \<Rightarrow> (FormErrors \<Rightarrow> FormErrors) \<Rightarrow> FormErrors \<Rightarrow> FormErrors" where
  "assign_if c assignment e = (if c then assignment e else e)"

text \<open>The body of \<open>validateForm\<close> up to \<open>setErrors\<close>: the errors object, check by check.\<close>

definition newErrors :: "TravelFormData \<Rightarrow> FormErrors" where
  "newErrors formData =
     (let e = no_errors;
          e = assign_if (js_not (js_trim (origin formData)))
                (\<lambda>e. e\<lparr>err_origin := Some ''Origin is required''\<rparr>) e;
          e = assign_if (js_not (js_trim (destination formData)))
                (\<lambda>e. e\<lparr>err_destination := Some ''Destination is required''\<rparr>) e;
          e = assign_if (js_not (startDate formData))
                (\<lambda>e. e\<lparr>err_startDate := Some ''Start date is required''\<rparr>) e;
          e = assign_if (js_not (endDate formData))
                (\<lambda>e. e\<lparr>err_endDate := Some ''End date is required''\<rparr>) e;
          e = assign_if (\<not> js_not (startDate formData) \<and> \<not> js_not (endDate formData)
                         \<and> str_ge (startDate formData) (endDate formData))
                (\<lambda>e. e\<lparr>err_endDate := Some ''End date must be after start date''\<rparr>) e;
          e = assign_if (js_not (budget formData) \<or> num_le_zero (parseInt (budget formData)))
                (\<lambda>e. e\<lparr>err_budget := Some ''Valid budget is required''\<rparr>) e;
          e = assign_if (js_not (people formData) \<or> num_le_zero (parseInt (people formData)))
                (\<lambda>e. e\<lparr>err_people := Some ''Number of people is required''\<rparr>) e;
          e = assign_if (js_not (travelMode formData))
                (\<lambda>e. e\<lparr>err_travelMode := Some ''Travel mode is required''\<rparr>) e;
          e = assign_if (length (activities formData) = 0)
                (\<lambda>e. e\<lparr>err_activities := Some ''Please select at least one activity''\<rparr>) e;
          e = assign_if (js_not (hotelPreference formData))
                (\<lambda>e. e\<lparr>err_hotelPreference := Some ''Hotel preference is required''\<rparr>) e
      in e)"

text \<open>
  \<open>validateForm\<close>: the errors it stores with \<open>setErrors\<close> and the boolean it returns.
\<close>

definition validateForm :: "TravelFormData \<Rightarrow> FormErrors \<times> bool" where
  "validateForm formData =
     (let e = newErrors formData in (e, length (object_keys e) = 0))"

text \<open>
  \<open>handleSubmit\<close>: \<open>onSubmit(formData)\<close> is called only when \<open>validateForm\<close> returns true;
  the result is the data handed to \<open>onSubmit\<close>, if any.
\<close>

definition handleSubmit :: "TravelFormData \<Rightarrow> TravelFormData option" where
  "handleSubmit formData = (if snd (validateForm formData) then Some formData else None)"

section \<open>Calendar dates and their ISO form\<close>

text \<open>
  The value of a date input is the date written \<open>YYYY-MM-DD\<close>, each field in decimal
  digits padded with zeros. A date is given by its year, month and day.
\<close>

record date =
  year :: nat
  month :: nat
  day :: nat

definition leap_year :: "nat \<Rightarrow> bool" where
  "leap_year y = (y mod 4 = 0 \<and> (y mod 100 \<noteq> 0 \<or> y mod 400 = 0))"

definition days_in_month :: "nat \<Rightarrow> nat \<Rightarrow> nat" where
  "days_in_month y m =
     (if m = 2 then (if leap_year y then 29 else 28)
      else if m \<in> {4, 6, 9, 11} then 30 else 31)"

definition valid_date :: "date \<Rightarrow> bool" where
  "valid_date d =
     (year d \<le> 9999 \<and> 1 \<le> month d \<and> month d \<le> 12 \<and>
      1 \<le> day d \<and> day d \<le> days_in_month (year d) (month d))"

text \<open>The order of the calendar: by year, then month, then day.\<close>

definition date_lt :: "date \<Rightarrow> date \<Rightarrow> bool" where
  "date_lt a b =
     (year a < year b \<or>
      (year a = year b \<and> (month a < month b \<or> (month a = month b \<and> day a < day b))))"

definition date_le :: "date \<Rightarrow> date \<Rightarrow> bool" where
  "date_le a b = (date_lt a b \<or> (year a = year b \<and> month a = month b \<and> day a = day b))"

definition digit_char :: "nat \<Rightarrow> char" where
  "digit_char n = char_of (48 + n)"

definition pad2 :: "nat \<Rightarrow> string" where
  "pad2 n = [digit_char (n div 10 mod 10), digit_char (n mod 10)]"

definition pad4 :: "nat \<Rightarrow> string" where
  "pad4 n = pad2 (n div 100) @ pad2 (n mod 100)"

definition iso_string :: "date \<Rightarrow> string" where
  "iso_string d = pad4 (year d) @ ''-'' @ pad2 (month d) @ ''-'' @ pad2 (day d)"

text \<open>
  The decimal numeral of a number, as a number input holds a whole amount: digits without
  leading zeros, a minus sign in front of a negative one.
\<close>

fun dec_digits :: "nat \<Rightarrow> string" where
  "dec_digits n =
     (if n < 10 then [digit_char n] else dec_digits (n div 10) @ [digit_char (n mod 10)])"



text \<open>
  The amount a budget text denotes, read as the specification's "positive currency
  amount": a decimal numeral with an optional minus sign and an optional fraction after
  a point. This follows the specification's words, not \<open>validateForm\<close>.
\<close>

definition denoted_amount :: "string \<Rightarrow> rat option" where
  "denoted_amount s =
     (let neg = (s \<noteq> [] \<and> hd s = CHR ''-'');
          s = (if neg then tl s else s);
          whole = takeWhile (is_radix_digit 10) s;
          rest = dropWhile (is_radix_digit 10) s;
          frac = (if rest = [] then Some []
                  else if hd rest = CHR ''.'' \<and> tl rest \<noteq> []
                          \<and> list_all (is_radix_digit 10) (tl rest)
                  then Some (tl rest) else None)
      in case frac of
           None \<Rightarrow> None
         | Some fr \<Rightarrow>
             if whole = [] \<and> fr = [] then None
             else Some ((if neg then - 1 else 1) *
                    (of_nat (radix_value 10 whole)
                       + of_nat (radix_value 10 fr) / 10 ^ length fr)))"

definition denotes_positive_amount :: "string \<Rightarrow> bool" where
  "denotes_positive_amount s = (case denoted_amount s of None \<Rightarrow> False | Some q \<Rightarrow> 0 < q)"

section \<open>The recommendation and itinerary synthesis engine\<close>

text \<open>
  The engine is the Python backend (\<open>budget_agent\<close>, \<open>search_agent\<close>, \<open>context_agent\<close>,
  \<open>summary_agent\<close>), which is not among the sources embedded here. Each definition of this
  section is modelled from the specification and says so. Money is in integer cents.
\<close>

subsection \<open>Data model\<close>

text \<open>Modelled from the spec: the error taxonomy of the engine (the sources that raise
  these are missing). \<open>EmptyPool\<close> is a flag, not an error.\<close>

datatype engine_error =
  InvalidRequest | ServiceTransientError | ValidationError | EmbeddingUnavailable

text \<open>Modelled from the spec: \<open>TripRequest\<close> (the request model is missing). The date
  range is held as day ordinals, so that its length in days is their difference.\<close>

record TripRequest =
  req_origin :: string
  req_destination :: string
  start_day :: int
  end_day :: int
  strict_dates :: bool
  total_budget :: int
  travelers :: nat
  travel_mode :: string
  activity_categories :: "string list"
  hotel_tier :: string
  prior_visit :: bool

text \<open>Modelled from the spec: structural validity of a request (end after start,
  positive budget, at least one traveler, a non-empty set of activity categories).\<close>

definition valid_request :: "TripRequest \<Rightarrow> bool" where
  "valid_request r =
     (start_day r < end_day r \<and> 0 < total_budget r \<and> 1 \<le> travelers r \<and>
      activity_categories r \<noteq> [])"

text \<open>Modelled from the spec: D, the length of the date range in days.\<close>

definition duration :: "TripRequest \<Rightarrow> nat" where
  "duration r = nat (end_day r - start_day r)"

text \<open>Modelled from the spec: the fixed set of spending categories.\<close>

datatype category = Flights | Accommodation | Activities | Food | Transportation

text \<open>Modelled from the spec: the five categories in their fixed order.\<close>

definition all_categories :: "category list" where
  "all_categories = [Flights, Accommodation, Activities, Food, Transportation]"

text \<open>Modelled from the spec: the name of a category in the response of the reasoning service.\<close>

definition category_name :: "category \<Rightarrow> string" where
  "category_name c =
     (case c of Flights \<Rightarrow> ''flights'' | Accommodation \<Rightarrow> ''accommodation''
      | Activities \<Rightarrow> ''activities'' | Food \<Rightarrow> ''food''
      | Transportation \<Rightarrow> ''transportation'')"

text \<open>Modelled from the spec: \<open>BudgetAllocation\<close>, a percentage and an amount for each
  category, a feasibility score, savings tips and the "fallback used" flag.\<close>

record CategoryShare =
  percentage :: int
  amount :: int

text \<open>Modelled from the spec: \<open>BudgetAllocation\<close>: the share of each category, a feasibility score, savings tips and the "fallback used" flag (the budget agent is missing).\<close>

record BudgetAllocation =
  shares :: "category \<Rightarrow> CategoryShare"
  feasibility :: rat
  savings_tips :: "string list"
  fallback_used :: bool

text \<open>Modelled from the spec: \<open>CatalogEntry\<close> and \<open>RankedCandidate\<close>.\<close>

record CatalogEntry =
  entry_id :: string
  entry_category :: string
  title :: string
  location :: string
  estimated_cost :: int
  tags :: "string list"
  embedding :: "rat list"

text \<open>Modelled from the spec: \<open>RankedCandidate\<close>, a catalog entry with its similarity score and its post-filter cost flag.\<close>

record RankedCandidate =
  entry :: CatalogEntry
  score :: rat
  cost_flag :: bool

text \<open>Modelled from the spec: \<open>ContextInfo\<close>; every weather field may be null.\<close>

record WeatherSnapshot =
  condition :: string
  temp_low :: int
  temp_high :: int

text \<open>Modelled from the spec: \<open>ContextInfo\<close> (the context agent is missing); every weather field may be null.\<close>

record ContextInfo =
  daily_weather :: "WeatherSnapshot option list"
  weather_summary :: "string option"
  seasonal_tips :: "string list"
  packing_suggestions :: "string list"
  context_disclaimer :: string

text \<open>Modelled from the spec: a scheduled activity entry (a candidate, or none for the
  "explore independently" placeholder, with its time slot, cost and repetition flag), the
  selected accommodation, \<open>DayPlan\<close> and \<open>Itinerary\<close>.\<close>

record ScheduledActivity =
  candidate :: "RankedCandidate option"
  time_slot :: nat
  activity_cost :: int
  repeated :: bool

text \<open>Modelled from the spec: the selected accommodation of a day plan: a hotel with its over-budget flag, or unavailable.\<close>

datatype accommodation = Unavailable | Hotel RankedCandidate bool

text \<open>Modelled from the spec: \<open>DayPlan\<close> (the summary agent is missing).\<close>

record DayPlan =
  day_index :: nat
  day_title :: string
  description :: string
  scheduled :: "ScheduledActivity list"
  selected_accommodation :: accommodation
  day_estimated_cost :: int
  weather :: "WeatherSnapshot option"

text \<open>Modelled from the spec: the total estimated cost of an itinerary, by category and grand total.\<close>

record CostBreakdown =
  cost_flights :: int
  cost_accommodation :: int
  cost_activities :: int
  cost_food :: int
  cost_transportation :: int
  total :: int

text \<open>Modelled from the spec: \<open>Itinerary\<close>, the root output, with its disclaimer and its degradation flag.\<close>

record Itinerary =
  itinerary_destination :: string
  itinerary_duration :: nat
  days :: "DayPlan list"
  total_estimated_cost :: CostBreakdown
  disclaimer :: string
  degraded :: bool

subsection \<open>Embedding/Similarity Index: the ranking primitive\<close>





subsection \<open>Budget Allocator\<close>

text \<open>Modelled from the spec: the answer of the external reasoning service, as parsed
  from its text: a percentage by category name, and savings tips.\<close>

record UpstreamResponse =
  raw_percentages :: "(string \<times> int) list"
  raw_tips :: "string list"

text \<open>Modelled from the spec: a response after validation, a tagged variant: valid with a percentage for each category, or schema-invalid.\<close>

datatype parsed_response = ValidParsed "category \<Rightarrow> int" | SchemaInvalid

text \<open>Modelled from the spec: validation of a response. It is rejected when a category
  is missing or unrecognized, or when the percentages do not sum to 100 within 2.\<close>

definition validate_response :: "UpstreamResponse \<Rightarrow> parsed_response" where
  "validate_response r =
     (let kvs = raw_percentages r; names = map fst kvs in
      if list_all (\<lambda>c. category_name c \<in> set names) all_categories
         \<and> list_all (\<lambda>n. n \<in> set (map category_name all_categories)) names
         \<and> \<bar>sum_list (map snd kvs) - 100\<bar> \<le> 2
      then ValidParsed (\<lambda>c. case map_of kvs (category_name c) of Some p \<Rightarrow> p | None \<Rightarrow> 0)
      else SchemaInvalid)"

text \<open>Modelled from the spec: one call and up to \<open>retries\<close> further calls of the
  service; \<open>service k\<close> is the outcome of call number \<open>k\<close>, \<open>None\<close> when it failed or
  timed out. The waiting between calls (exponential backoff) is time and is left out.\<close>

fun call_with_retries ::
  "(nat \<Rightarrow> UpstreamResponse option) \<Rightarrow> nat \<Rightarrow> nat \<Rightarrow> UpstreamResponse option" where
  "call_with_retries service k 0 = service k"
| "call_with_retries service k (Suc retries) =
     (case service k of
        None \<Rightarrow> call_with_retries service (Suc k) retries
      | Some r \<Rightarrow> Some r)"

text \<open>Modelled from the spec: the fallible part of the allocator: a service failure
  after 2 retries, or a response that fails validation (which is not retried).\<close>

definition request_allocation ::
  "(nat \<Rightarrow> UpstreamResponse option) \<Rightarrow> engine_error + (category \<Rightarrow> int) \<times> string list" where
  "request_allocation service =
     (case call_with_retries service 0 2 of
        None \<Rightarrow> Inl ServiceTransientError
      | Some r \<Rightarrow>
          (case validate_response r of
             SchemaInvalid \<Rightarrow> Inl ValidationError
           | ValidParsed pct \<Rightarrow> Inr (pct, raw_tips r)))"

text \<open>Modelled from the spec: the default allocation policy, the fixed heuristic split
  of the fallback path.\<close>

definition default_allocation_policy :: "category \<Rightarrow> int" where
  "default_allocation_policy c =
     (case c of Flights \<Rightarrow> 30 | Accommodation \<Rightarrow> 35 | Activities \<Rightarrow> 15 | Food \<Rightarrow> 15
      | Transportation \<Rightarrow> 5)"

text \<open>Modelled from the spec: the amounts of a split. Each category gets its percentage
  of the budget rounded down to the cent, except the designated category, which takes what
  is left, so that the amounts sum to the budget. The specification does not name the
  designated category: it is the parameter \<open>designated\<close>.\<close>

definition share_amount :: "int \<Rightarrow> int \<Rightarrow> int" where
  "share_amount budget_cents pct = budget_cents * pct div 100"

text \<open>Modelled from the spec: the share of each category under a split and a designated category.\<close>

definition split_budget ::
  "category \<Rightarrow> (category \<Rightarrow> int) \<Rightarrow> int \<Rightarrow> category \<Rightarrow> CategoryShare" where
  "split_budget designated pct budget_cents c =
     \<lparr>percentage = pct c,
      amount =
        (if c = designated
         then budget_cents -
              sum_list (map (\<lambda>c'. share_amount budget_cents (pct c'))
                          (filter (\<lambda>c'. c' \<noteq> designated) all_categories))
         else share_amount budget_cents (pct c))\<rparr>"

text \<open>Modelled from the spec: the Budget Allocator. Any failure of the fallible part
  leads to the fallback split, marked with the flag. The feasibility score is computed
  from the request alone, by the parameter \<open>feasibility_of\<close>.\<close>

definition allocate ::
  "category \<Rightarrow> (TripRequest \<Rightarrow> rat) \<Rightarrow> (nat \<Rightarrow> UpstreamResponse option) \<Rightarrow> TripRequest
     \<Rightarrow> BudgetAllocation" where
  "allocate designated feasibility_of service req =
     (case request_allocation service of
        Inl err \<Rightarrow>
          \<lparr>shares = split_budget designated default_allocation_policy (total_budget req),
           feasibility = feasibility_of req, savings_tips = [], fallback_used = True\<rparr>
      | Inr (pct, tips) \<Rightarrow>
          \<lparr>shares = split_budget designated pct (total_budget req),
           feasibility = feasibility_of req, savings_tips = tips, fallback_used = False\<rparr>)"

subsection \<open>Itinerary Synthesizer\<close>

text \<open>Modelled from the spec: what the Retrieval Agent hands over, a ranked list of
  candidates for each of flights, hotels and activities, and the relaxations it applied
  (the agent itself is missing and is a parameter of the engine).\<close>

record RetrievalResult =
  flight_candidates :: "RankedCandidate list"
  hotel_candidates :: "RankedCandidate list"
  activity_candidates :: "RankedCandidate list"
  relaxations :: "string list"

text \<open>Modelled from the spec: step 1, accommodation selection. The highest-ranked hotel
  whose cost for D nights fits the accommodation allocation; if none fits, the lowest-cost
  candidate, flagged over budget; with no candidate, none.\<close>

fun cheapest :: "RankedCandidate \<Rightarrow> RankedCandidate list \<Rightarrow> RankedCandidate" where
  "cheapest best [] = best"
| "cheapest best (h # hs) =
     cheapest (if estimated_cost (entry h) < estimated_cost (entry best) then h else best) hs"

text \<open>Modelled from the spec: step 1, the selection itself (the summary agent is missing).\<close>

definition select_accommodation :: "RankedCandidate list \<Rightarrow> nat \<Rightarrow> int \<Rightarrow> accommodation" where
  "select_accommodation hotels D allocation =
     (case find (\<lambda>h. estimated_cost (entry h) * int D \<le> allocation) hotels of
        Some h \<Rightarrow> Hotel h False
      | None \<Rightarrow> (case hotels of [] \<Rightarrow> Unavailable | h # hs \<Rightarrow> Hotel (cheapest h hs) True))"

text \<open>Modelled from the spec: the accommodation total, the cost of the selected hotel for the D nights.\<close>

definition accommodation_total :: "accommodation \<Rightarrow> nat \<Rightarrow> int" where
  "accommodation_total a D =
     (case a of Unavailable \<Rightarrow> 0 | Hotel h over_budget \<Rightarrow> estimated_cost (entry h) * int D)"

text \<open>Modelled from the spec: step 2, the per-day budget and its ceiling, the day budget
  scaled by 1.2, in integer cents. D is at least 1: the synthesizer runs on valid requests
  only, whose end is after their start.\<close>

definition day_budget :: "int \<Rightarrow> nat \<Rightarrow> int" where
  "day_budget activities_allocation D = activities_allocation div int D"

text \<open>Modelled from the spec: the ceiling of a day, the day budget scaled by 1.2 and rounded down to the cent.\<close>

definition day_ceiling :: "int \<Rightarrow> nat \<Rightarrow> int" where
  "day_ceiling activities_allocation D = day_budget activities_allocation D * 12 div 10"

text \<open>Modelled from the spec: steps 3 and 4. The pool of a category is the
  activity candidates of that category, in rank order. In a category, the highest-ranked
  unused candidate that keeps the day's running total within the ceiling is selected; when
  there is none and the pool is smaller than D, the highest-ranked candidate that fits is
  selected again and the occurrence is flagged as a repetition.\<close>

definition category_pool :: "RankedCandidate list \<Rightarrow> string \<Rightarrow> RankedCandidate list" where
  "category_pool acts c = filter (\<lambda>r. entry_category (entry r) = c) acts"

text \<open>Modelled from the spec: the selection within one category (steps 3 and 4).\<close>

definition pick_in_category ::
  "RankedCandidate list \<Rightarrow> nat \<Rightarrow> string set \<Rightarrow> int \<Rightarrow> int \<Rightarrow> string
     \<Rightarrow> (RankedCandidate \<times> bool) option" where
  "pick_in_category acts D used running cap c =
     (let pool = category_pool acts c in
      case find (\<lambda>r. entry_id (entry r) \<notin> used
                      \<and> running + estimated_cost (entry r) \<le> cap) pool of
        Some r \<Rightarrow> Some (r, False)
      | None \<Rightarrow>
          if length pool < D
          then (case find (\<lambda>r. running + estimated_cost (entry r) \<le> cap) pool of
                  Some r \<Rightarrow> Some (r, True)
                | None \<Rightarrow> None)
          else None)"

text \<open>Modelled from the spec: the fall-back through the queue: the next category is
  tried when none fits in the current one.\<close>

fun pick_from_queue ::
  "RankedCandidate list \<Rightarrow> nat \<Rightarrow> string set \<Rightarrow> int \<Rightarrow> int \<Rightarrow> string list
     \<Rightarrow> (RankedCandidate \<times> bool) option" where
  "pick_from_queue acts D used running cap [] = None"
| "pick_from_queue acts D used running cap (c # cs) =
     (case pick_in_category acts D used running cap c of
        Some p \<Rightarrow> Some p
      | None \<Rightarrow> pick_from_queue acts D used running cap cs)"

text \<open>Modelled from the spec: the round-robin queue; the category popped for a day goes
  to the back.\<close>

definition rotate_queue :: "string list \<Rightarrow> string list" where
  "rotate_queue q = (case q of [] \<Rightarrow> [] | c # cs \<Rightarrow> cs @ [c])"

text \<open>Modelled from the spec: the "explore independently" placeholder of a day for which
  every category is exhausted.\<close>

definition placeholder :: ScheduledActivity where
  "placeholder = \<lparr>candidate = None, time_slot = 0, activity_cost = 0, repeated = False\<rparr>"

text \<open>Modelled from the spec: the single pass over the days. For each of the \<open>n\<close> days
  left it gives the scheduled entries of the day; \<open>used\<close> holds the ids scheduled so
  far.\<close>

fun schedule_days ::
  "RankedCandidate list \<Rightarrow> nat \<Rightarrow> int \<Rightarrow> nat \<Rightarrow> string list \<Rightarrow> string set
     \<Rightarrow> ScheduledActivity list list" where
  "schedule_days acts D cap 0 queue used = []"
| "schedule_days acts D cap (Suc n) queue used =
     (case pick_from_queue acts D used 0 cap queue of
        Some (r, rep) \<Rightarrow>
          [\<lparr>candidate = Some r, time_slot = 0, activity_cost = estimated_cost (entry r),
            repeated = rep\<rparr>]
          # schedule_days acts D cap n (rotate_queue queue)
              (insert (entry_id (entry r)) used)
      | None \<Rightarrow> [placeholder] # schedule_days acts D cap n (rotate_queue queue) used)"

text \<open>Modelled from the spec: step 5, cost reconciliation. The grand total is the sum of
  the breakdown by category. The specification's equation leaves to the day costs every
  category besides accommodation and flights, so a day's cost before reconciliation is the
  cost of its entries and a daily share, rounded down, of the food and transportation
  allocations. The remainder, the grand total less the day costs, the accommodation total
  and the flight allocation, is added to the final day.\<close>

definition daily_share :: "BudgetAllocation \<Rightarrow> nat \<Rightarrow> int" where
  "daily_share alloc D =
     (amount (shares alloc Food) + amount (shares alloc Transportation)) div int D"

text \<open>Modelled from the spec: the cost of a day before reconciliation.\<close>

definition day_base_cost :: "BudgetAllocation \<Rightarrow> nat \<Rightarrow> ScheduledActivity list \<Rightarrow> int" where
  "day_base_cost alloc D items = sum_list (map activity_cost items) + daily_share alloc D"

text \<open>Modelled from the spec: the remainder is absorbed into the final day, and no other day changes.\<close>

definition reconcile_costs :: "int \<Rightarrow> int list \<Rightarrow> int list" where
  "reconcile_costs remainder costs =
     (if costs = [] then [] else butlast costs @ [last costs + remainder])"

text \<open>Modelled from the spec: the breakdown by category and its grand total.\<close>

definition cost_breakdown ::
  "BudgetAllocation \<Rightarrow> accommodation \<Rightarrow> nat \<Rightarrow> ScheduledActivity list list \<Rightarrow> CostBreakdown" where
  "cost_breakdown alloc acc D plans =
     (let fl = amount (shares alloc Flights);
          ac = accommodation_total acc D;
          av = sum_list (map activity_cost (concat plans));
          fo = amount (shares alloc Food);
          tr = amount (shares alloc Transportation)
      in \<lparr>cost_flights = fl, cost_accommodation = ac, cost_activities = av, cost_food = fo,
          cost_transportation = tr, total = fl + ac + av + fo + tr\<rparr>)"

text \<open>Modelled from the spec: step 6, the narrative of a day. \<open>narrate\<close> is the
  language-model call, \<open>None\<close> when it fails; then the template
  "Day N in destination: category list" is used.\<close>

fun join_comma :: "string list \<Rightarrow> string" where
  "join_comma [] = []"
| "join_comma [x] = x"
| "join_comma (x # y # ys) = x @ '', '' @ join_comma (y # ys)"

text \<open>Modelled from the spec: the entry of a scheduled activity in the category list of the template.\<close>

definition item_label :: "ScheduledActivity \<Rightarrow> string" where
  "item_label a =
     (case candidate a of None \<Rightarrow> ''explore independently''
      | Some r \<Rightarrow> entry_category (entry r))"

text \<open>Modelled from the spec: the template "Day N in destination: category list".\<close>

definition templated_description :: "nat \<Rightarrow> string \<Rightarrow> ScheduledActivity list \<Rightarrow> string" where
  "templated_description n dest items =
     ''Day '' @ dec_digits n @ '' in '' @ dest @ '': '' @ join_comma (map item_label items)"

text \<open>Modelled from the spec: title and description of a day, from the service or, when it fails, from the template.\<close>

definition day_narrative ::
  "(nat \<Rightarrow> ScheduledActivity list \<Rightarrow> WeatherSnapshot option \<Rightarrow> (string \<times> string) option)
     \<Rightarrow> nat \<Rightarrow> string \<Rightarrow> ScheduledActivity list \<Rightarrow> WeatherSnapshot option
     \<Rightarrow> string \<times> string" where
  "day_narrative narrate n dest items w =
     (case narrate n items w of
        Some td \<Rightarrow> td
      | None \<Rightarrow> (''Day '' @ dec_digits n, templated_description n dest items))"

text \<open>Modelled from the spec: the weather snapshot of a day, null when the context has none for it.\<close>

definition weather_of_day :: "ContextInfo \<Rightarrow> nat \<Rightarrow> WeatherSnapshot option" where
  "weather_of_day ctx i =
     (if i < length (daily_weather ctx) then daily_weather ctx ! i else None)"

text \<open>Modelled from the spec: the day plan of day \<open>i + 1\<close> from its entries and its reconciled cost.\<close>

definition make_day ::
  "(nat \<Rightarrow> ScheduledActivity list \<Rightarrow> WeatherSnapshot option \<Rightarrow> (string \<times> string) option)
     \<Rightarrow> string \<Rightarrow> ContextInfo \<Rightarrow> accommodation
     \<Rightarrow> nat \<times> ScheduledActivity list \<times> int \<Rightarrow> DayPlan" where
  "make_day narrate dest ctx acc d =
     (case d of (i, items, cost) \<Rightarrow>
        (let w = weather_of_day ctx i;
             td = day_narrative narrate (Suc i) dest items w
         in \<lparr>day_index = Suc i, day_title = fst td, description = snd td, scheduled = items,
             selected_accommodation = acc, day_estimated_cost = cost, weather = w\<rparr>))"

text \<open>Modelled from the spec: the Itinerary Synthesizer, from the request and the
  resolved outputs of the three agents to the itinerary.\<close>

definition synthesize_itinerary ::
  "(nat \<Rightarrow> ScheduledActivity list \<Rightarrow> WeatherSnapshot option \<Rightarrow> (string \<times> string) option)
     \<Rightarrow> TripRequest \<Rightarrow> BudgetAllocation \<Rightarrow> RetrievalResult \<Rightarrow> ContextInfo \<Rightarrow> Itinerary" where
  "synthesize_itinerary narrate req alloc found ctx =
     (let D = duration req;
          acc = select_accommodation (hotel_candidates found) D
                  (amount (shares alloc Accommodation));
          cap = day_ceiling (amount (shares alloc Activities)) D;
          plans = schedule_days (activity_candidates found) D cap D
                    (activity_categories req) {};
          breakdown = cost_breakdown alloc acc D plans;
          base = map (day_base_cost alloc D) plans;
          remainder = total breakdown
                        - (sum_list base + cost_accommodation breakdown + cost_flights breakdown);
          costs = reconcile_costs remainder base
      in \<lparr>itinerary_destination = req_destination req,
          itinerary_duration = D,
          days = map (make_day narrate (req_destination req) ctx acc)
                   (zip [0..<D] (zip plans costs)),
          total_estimated_cost = breakdown,
          disclaimer = ''NomadAI is a travel planner, not a booking system.'',
          degraded = (fallback_used alloc \<or> relaxations found \<noteq> []
                      \<or> (case acc of Unavailable \<Rightarrow> True | Hotel h over_budget \<Rightarrow> over_budget)
                      \<or> list_ex (\<lambda>a. candidate a = None \<or> repeated a) (concat plans))\<rparr>)"

text \<open>Modelled from the spec: the one operation of the core. A structurally invalid
  request fails with \<open>InvalidRequest\<close>; otherwise the three agents run on the request
  and the synthesizer joins their outputs. The Retrieval Agent and the Context Agent are
  the parameters \<open>retrieve\<close> and \<open>context_agent\<close>.\<close>

definition synthesize ::
  "category \<Rightarrow> (TripRequest \<Rightarrow> rat) \<Rightarrow> (nat \<Rightarrow> UpstreamResponse option)
     \<Rightarrow> (TripRequest \<Rightarrow> BudgetAllocation \<Rightarrow> RetrievalResult)
     \<Rightarrow> (TripRequest \<Rightarrow> ContextInfo)
     \<Rightarrow> (nat \<Rightarrow> ScheduledActivity list \<Rightarrow> WeatherSnapshot option \<Rightarrow> (string \<times> string) option)
     \<Rightarrow> TripRequest \<Rightarrow> engine_error + Itinerary" where
  "synthesize designated feasibility_of service retrieve context_agent narrate req =
     (if valid_request req
      then (let alloc = allocate designated feasibility_of service req
            in Inr (synthesize_itinerary narrate req alloc (retrieve req alloc)
                      (context_agent req)))
      else Inl InvalidRequest)"

text \<open>Modelled from the spec: the scheduled entries of an itinerary, across all its day plans, in order.\<close>

definition scheduled_entries :: "Itinerary \<Rightarrow> ScheduledActivity list" where
  "scheduled_entries it = concat (map scheduled (days it))"

section \<open>Itineraries up to their narrative\<close>


section \<open>Sample inputs\<close>

text \<open>
  A request for five days in Paris with a budget of 3000 dollars, a small catalog, and
  stubbed agents: a reasoning service that is down, a retrieval that returns the sample
  candidates, no weather, and a narrative service that fails.
\<close>

definition paris_request :: TripRequest where
  "paris_request =
     \<lparr>req_origin = ''New York'', req_destination = ''Paris'', start_day = 739038,
      end_day = 739043, strict_dates = True, total_budget = 300000, travelers = 2,
      travel_mode = ''plane'', activity_categories = [''food'', ''culture''],
      hotel_tier = ''mid-range'', prior_visit = False\<rparr>"

definition bistro :: CatalogEntry where
  "bistro =
     \<lparr>entry_id = ''act-1'', entry_category = ''food'', title = ''Bistro dinner'',
      location = ''Paris'', estimated_cost = 6000, tags = [''food''], embedding = [1, 0]\<rparr>"

definition louvre :: CatalogEntry where
  "louvre =
     \<lparr>entry_id = ''act-2'', entry_category = ''culture'', title = ''Louvre'',
      location = ''Paris'', estimated_cost = 2200, tags = [''culture''], embedding = [0, 1]\<rparr>"




definition service_down :: "nat \<Rightarrow> UpstreamResponse option" where
  "service_down k = None"


definition sample_retrieve :: "TripRequest \<Rightarrow> BudgetAllocation \<Rightarrow> RetrievalResult" where
  "sample_retrieve req alloc =
     \<lparr>flight_candidates = [], hotel_candidates = [],
      activity_candidates =
        [\<lparr>entry = bistro, score = 9 / 10, cost_flag = False\<rparr>,
         \<lparr>entry = louvre, score = 8 / 10, cost_flag = False\<rparr>],
      relaxations = []\<rparr>"

definition sample_context :: "TripRequest \<Rightarrow> ContextInfo" where
  "sample_context req =
     \<lparr>daily_weather = [], weather_summary = None, seasonal_tips = [],
      packing_suggestions = [], context_disclaimer = ''Weather is unavailable.''\<rparr>"

definition narrate_down ::
  "nat \<Rightarrow> ScheduledActivity list \<Rightarrow> WeatherSnapshot option \<Rightarrow> (string \<times> string) option" where
  "narrate_down n items w = None"

definition sample_itinerary :: Itinerary where
  "sample_itinerary =
     synthesize_itinerary narrate_down paris_request
       (allocate Transportation (\<lambda>r. 1) service_down paris_request)
       (sample_retrieve paris_request
          (allocate Transportation (\<lambda>r. 1) service_down paris_request))
       (sample_context paris_request)"






section \<open>Properties of the travel form\<close>

subsection \<open>What \<open>validateForm\<close> records, field by field\<close>

lemma field_assign_if:
  "err_endDate (assign_if c u e) = (if c then err_endDate (u e) else err_endDate e)"
  "err_budget (assign_if c u e) = (if c then err_budget (u e) else err_budget e)"
  "err_activities (assign_if c u e) = (if c then err_activities (u e) else err_activities e)"
  by (simp_all add: assign_if_def)

lemma err_endDate_newErrors:
  "err_endDate (newErrors f) =
     (if startDate f \<noteq> [] \<and> endDate f \<noteq> [] \<and> str_ge (startDate f) (endDate f)
      then Some ''End date must be after start date''
      else if endDate f = [] then Some ''End date is required'' else None)"
  unfolding newErrors_def Let_def
  by (simp add: field_assign_if no_errors_def js_not_def)


lemma err_activities_newErrors:
  "err_activities (newErrors f) =
     (if activities f = [] then Some ''Please select at least one activity'' else None)"
  unfolding newErrors_def Let_def
  by (simp add: field_assign_if no_errors_def js_not_def)

lemma validateForm_fst: "fst (validateForm f) = newErrors f"
  by (simp add: validateForm_def Let_def)

lemma validateForm_snd: "snd (validateForm f) = (object_keys (newErrors f) = [])"
  by (simp add: validateForm_def Let_def)

lemma object_keys_endDate: "err_endDate e \<noteq> None \<Longrightarrow> object_keys e \<noteq> []"
  by (simp add: object_keys_def)


lemma object_keys_activities: "err_activities e \<noteq> None \<Longrightarrow> object_keys e \<noteq> []"
  by (simp add: object_keys_def)

lemma handleSubmit_blocked: "\<not> snd (validateForm f) \<Longrightarrow> handleSubmit f = None"
  by (simp add: handleSubmit_def)


subsection \<open>ISO dates compare as strings the way dates do\<close>

lemma of_char_digit_char: "n < 10 \<Longrightarrow> (of_char (digit_char n) :: nat) = 48 + n"
  by (simp add: digit_char_def)

lemma digit_char_inj: "a < 10 \<Longrightarrow> b < 10 \<Longrightarrow> (digit_char a = digit_char b) = (a = b)"
  by (metis of_char_digit_char add_left_cancel)

lemma str_lt_digit_Cons:
  "a < 10 \<Longrightarrow> b < 10 \<Longrightarrow>
   str_lt (digit_char a # xs) (digit_char b # ys) = (a < b \<or> (a = b \<and> str_lt xs ys))"
  by (auto simp: digit_char_inj of_char_digit_char)

lemma less_div_mod:
  fixes a b k :: nat
  assumes "0 < k"
  shows "(a < b) = (a div k < b div k \<or> (a div k = b div k \<and> a mod k < b mod k))"
proof -
  have A: "a = a div k * k + a mod k" and B: "b = b div k * k + b mod k"
    by simp_all
  consider "a div k < b div k" | "a div k = b div k" | "b div k < a div k"
    by linarith
  then show ?thesis
  proof cases
    case 1
    then have "a < b" using div_le_mono [of b a k] by (meson not_le)
    with 1 show ?thesis by simp
  next
    case 2
    then show ?thesis using A B by (metis nat_add_left_cancel_less less_irrefl)
  next
    case 3
    then have "b < a" using div_le_mono [of a b k] by (meson not_le)
    with 3 show ?thesis by simp
  qed
qed

lemma eq_div_mod:
  fixes a b k :: nat
  shows "(a = b) = (a div k = b div k \<and> a mod k = b mod k)"
  by (metis div_mult_mod_eq)

lemma str_lt_pad2:
  assumes "a < 100" "b < 100"
  shows "str_lt (pad2 a @ xs) (pad2 b @ ys) = (a < b \<or> (a = b \<and> str_lt xs ys))"
proof -
  have d: "a div 10 mod 10 = a div 10" "b div 10 mod 10 = b div 10" "a div 10 < 10" "b div 10 < 10"
    using assms by simp_all
  have "str_lt (pad2 a @ xs) (pad2 b @ ys) =
     (a div 10 < b div 10 \<or> (a div 10 = b div 10 \<and> (a mod 10 < b mod 10 \<or> (a mod 10 = b mod 10 \<and> str_lt xs ys))))"
    unfolding pad2_def by (simp add: str_lt_digit_Cons d del: str_lt.simps)
  also have "\<dots> = (a < b \<or> (a = b \<and> str_lt xs ys))"
    using less_div_mod [of 10 a b, simplified] eq_div_mod [of a b 10] by auto
  finally show ?thesis .
qed

lemma str_lt_pad4:
  assumes "a < 10000" "b < 10000"
  shows "str_lt (pad4 a @ xs) (pad4 b @ ys) = (a < b \<or> (a = b \<and> str_lt xs ys))"
proof -
  have d: "a div 100 < 100" "a mod 100 < 100" "b div 100 < 100" "b mod 100 < 100"
    using assms by simp_all
  have "str_lt (pad4 a @ xs) (pad4 b @ ys) =
     (a div 100 < b div 100 \<or> (a div 100 = b div 100 \<and> (a mod 100 < b mod 100 \<or> (a mod 100 = b mod 100 \<and> str_lt xs ys))))"
    unfolding pad4_def by (simp add: str_lt_pad2 d del: str_lt.simps)
  also have "\<dots> = (a < b \<or> (a = b \<and> str_lt xs ys))"
    using less_div_mod [of 100 a b, simplified] eq_div_mod [of a b 100] by auto
  finally show ?thesis .
qed

lemma str_lt_same_Cons: "str_lt (c # xs) (c # ys) = str_lt xs ys"
  by simp

lemma str_lt_iso_string:
  assumes "valid_date a" "valid_date b"
  shows "str_lt (iso_string a) (iso_string b) = date_lt a b"
proof -
  have m: "month a < 100" "month b < 100" "year a < 10000" "year b < 10000"
    using assms by (simp_all add: valid_date_def)
  have "day a \<le> 31" "day b \<le> 31"
    using assms by (auto simp: valid_date_def days_in_month_def split: if_splits)
  then have dd: "day a < 100" "day b < 100" by simp_all
  have p2: "str_lt (pad2 x) (pad2 y) = (x < y)" if "x < 100" "y < 100" for x y
    using str_lt_pad2 [OF that, of "[]" "[]"] by simp
  show ?thesis
    unfolding iso_string_def date_lt_def
    by (simp add: str_lt_pad4 m str_lt_pad2 dd p2 str_lt_same_Cons del: str_lt.simps) 
qed


lemma iso_string_not_Nil: "iso_string d \<noteq> []"
  by (simp add: iso_string_def pad4_def pad2_def)

lemma not_date_lt: "(\<not> date_lt a b) = date_le b a"
  unfolding date_lt_def date_le_def by auto

text \<open>
  C1. For a form whose start and end dates are ISO date strings (the \<open>YYYY-MM-DD\<close> form
  of two calendar dates), \<open>validateForm\<close> records the error "End date must be after start
  date" exactly when the end date is on or before the start date; then it returns false
  and \<open>handleSubmit\<close> submits nothing. When the end date is strictly after the start date
  no error is recorded for the end date.
\<close>

theorem validateForm_endDate_iff:
  assumes "valid_date s" and "valid_date e"
    and "startDate f = iso_string s" and "endDate f = iso_string e"
  shows "err_endDate (fst (validateForm f)) =
           (if date_le e s then Some ''End date must be after start date'' else None)
         \<and> (date_le e s \<longrightarrow> \<not> snd (validateForm f) \<and> handleSubmit f = None)
         \<and> (date_lt s e \<longrightarrow> err_endDate (fst (validateForm f)) = None)"
proof -
  have ge: "str_ge (iso_string s) (iso_string e) = date_le e s"
    using assms(1,2) by (simp add: str_ge_def str_lt_iso_string not_date_lt)
  have err: "err_endDate (newErrors f) =
      (if date_le e s then Some ''End date must be after start date'' else None)"
    using assms(3,4) by (simp add: err_endDate_newErrors ge iso_string_not_Nil)
  have rej: "\<not> snd (validateForm f)" if "date_le e s"
    using that err object_keys_endDate [of "newErrors f"] by (simp add: validateForm_snd)
  have "date_lt s e \<Longrightarrow> \<not> date_le e s"
    using not_date_lt [of s e] by simp
  with err rej show ?thesis
    by (simp add: validateForm_fst handleSubmit_blocked)
qed

theorem validateForm_endDate_iff_witness:
  "valid_date \<lparr>year = 2024, month = 6, day = 7\<rparr> \<and> valid_date \<lparr>year = 2024, month = 6, day = 1\<rparr>
   \<and> startDate (initialFormData\<lparr>startDate := ''2024-06-07'', endDate := ''2024-06-01''\<rparr>)
       = iso_string \<lparr>year = 2024, month = 6, day = 7\<rparr>
   \<and> endDate (initialFormData\<lparr>startDate := ''2024-06-07'', endDate := ''2024-06-01''\<rparr>)
       = iso_string \<lparr>year = 2024, month = 6, day = 1\<rparr>
   \<and> err_endDate (fst (validateForm
         (initialFormData\<lparr>startDate := ''2024-06-07'', endDate := ''2024-06-01''\<rparr>)))
       = Some ''End date must be after start date''
   \<and> handleSubmit (initialFormData\<lparr>startDate := ''2024-06-07'', endDate := ''2024-06-01''\<rparr>)
       = None"
proof -
  let ?s = "\<lparr>year = 2024, month = 6, day = 7\<rparr>"
  let ?e = "\<lparr>year = 2024, month = 6, day = 1\<rparr>"
  let ?f = "initialFormData\<lparr>startDate := ''2024-06-07'', endDate := ''2024-06-01''\<rparr>"
  have h1: "valid_date ?s" and h2: "valid_date ?e"
    by code_simp+
  have h3: "startDate ?f = iso_string ?s" and h4: "endDate ?f = iso_string ?e"
    by code_simp+
  have le: "date_le ?e ?s"
    by code_simp
  show ?thesis
    using validateForm_endDate_iff [OF h1 h2 h3 h4] h1 h2 h3 h4 le by simp
qed

text \<open>
  C3. \<open>validateForm\<close> records the error "Please select at least one activity" exactly
  when the list of selected activities is empty, and then returns false, so that nothing
  is submitted; with at least one activity selected no activities error is recorded.
\<close>

theorem validateForm_activities_iff:
  "err_activities (fst (validateForm f)) =
     (if activities f = [] then Some ''Please select at least one activity'' else None)
   \<and> (activities f = [] \<longrightarrow> \<not> snd (validateForm f) \<and> handleSubmit f = None)"
proof -
  have "\<not> snd (validateForm f)" if "activities f = []"
    using that object_keys_activities [of "newErrors f"]
    by (simp add: validateForm_snd err_activities_newErrors)
  then show ?thesis
    by (simp add: validateForm_fst err_activities_newErrors handleSubmit_blocked)
qed

theorem validateForm_activities_iff_witness:
  "err_activities (fst (validateForm initialFormData)) = Some ''Please select at least one activity''
   \<and> handleSubmit initialFormData = None
   \<and> err_activities (fst (validateForm (initialFormData\<lparr>activities := [''food'']\<rparr>))) = None"
  using validateForm_activities_iff [of initialFormData]
    validateForm_activities_iff [of "initialFormData\<lparr>activities := [''food'']\<rparr>"]
  by (simp add: initialFormData_def)

subsection \<open>\<open>parseInt\<close> on decimal numerals\<close>

declare dec_digits.simps [simp del]


















text \<open>
  A budget text with no leading number makes \<open>parseInt\<close> return \<open>NaN\<close>, which is not
  \<open><= 0\<close>: no budget error is recorded for it.
\<close>

lemma validateForm_budget_NaN:
  "\<not> denotes_positive_amount ''abc''
   \<and> parseInt ''abc'' = None
   \<and> err_budget (fst (validateForm (initialFormData\<lparr>budget := ''abc''\<rparr>))) = None"
  by code_simp

subsection \<open>Toggling an activity\<close>

lemma distinct_handleActivityChange:
  "distinct (activities s) \<Longrightarrow> distinct (activities (handleActivityChange a s))"
  by (simp add: handleActivityChange_def)

lemma distinct_toggles:
  "distinct (activities s) \<Longrightarrow>
   distinct (activities (foldl (\<lambda>s a. handleActivityChange a s) s as))"
  by (induction as arbitrary: s) (simp_all add: distinct_handleActivityChange)

text \<open>
  C9. Starting from the initial form data, whose activities list is empty, after any
  finite sequence of \<open>handleActivityChange\<close> updates the activities list has no duplicate
  entry.
\<close>

theorem activities_never_duplicated:
  "distinct (activities (foldl (\<lambda>s a. handleActivityChange a s) initialFormData as))"
  by (rule distinct_toggles) (simp add: initialFormData_def)

theorem activities_never_duplicated_witness:
  "activities (foldl (\<lambda>s a. handleActivityChange a s) initialFormData
       [''food'', ''culture'', ''food'', ''nature'']) = [''culture'', ''nature'']
   \<and> distinct (activities (foldl (\<lambda>s a. handleActivityChange a s) initialFormData
       [''food'', ''culture'', ''food'', ''nature'']))"
  using activities_never_duplicated [of "[''food'', ''culture'', ''food'', ''nature'']"]
  by (simp add: handleActivityChange_def initialFormData_def)

text \<open>
  C10. For every form state and every activity that is not in its activities list,
  applying the \<open>handleActivityChange\<close> update for that activity twice gives back exactly
  the state it started from: the first update appends the activity, the second filters
  it out.
\<close>

theorem handleActivityChange_twice:
  assumes "a \<notin> set (activities s)"
  shows "handleActivityChange a (handleActivityChange a s) = s"
proof -
  have "filter (\<lambda>x. x \<noteq> a) (activities s) = activities s"
    using assms by (induction "activities s") (auto simp: filter_id_conv)
  with assms show ?thesis
    by (simp add: handleActivityChange_def)
qed

theorem handleActivityChange_twice_witness:
  "''food'' \<notin> set (activities (initialFormData\<lparr>activities := [''culture'', ''nature'']\<rparr>))
   \<and> activities (handleActivityChange ''food''
        (initialFormData\<lparr>activities := [''culture'', ''nature'']\<rparr>)) = [''culture'', ''nature'', ''food'']
   \<and> handleActivityChange ''food'' (handleActivityChange ''food''
        (initialFormData\<lparr>activities := [''culture'', ''nature'']\<rparr>))
       = initialFormData\<lparr>activities := [''culture'', ''nature'']\<rparr>"
proof -
  have h: "''food'' \<notin> set (activities (initialFormData\<lparr>activities := [''culture'', ''nature'']\<rparr>))"
    by simp
  show ?thesis
    using handleActivityChange_twice [OF h] h by (simp add: handleActivityChange_def)
qed

text \<open>When the activity is already selected, two updates keep it selected but move it
  to the end of the list.\<close>

lemma toggle_selected_moves_to_end:
  "activities (handleActivityChange ''food'' (handleActivityChange ''food''
      (initialFormData\<lparr>activities := [''food'', ''nature'']\<rparr>))) = [''nature'', ''food'']"
  by (simp add: handleActivityChange_def)

section \<open>Properties of the engine\<close>

subsection \<open>Budget Allocator: the fallback path\<close>

lemma call_with_retries_2:
  "call_with_retries service 0 2 =
     (case service 0 of Some r \<Rightarrow> Some r
      | None \<Rightarrow> (case service 1 of Some r \<Rightarrow> Some r | None \<Rightarrow> service 2))"
  by (simp add: numeral_2_eq_2 split: option.splits)

lemma service_failure_iff:
  "(request_allocation service = Inl ServiceTransientError) =
     (service 0 = None \<and> service 1 = None \<and> service 2 = None)"
  by (auto simp: request_allocation_def call_with_retries_2
      split: option.splits parsed_response.splits)

lemma validation_failure_iff:
  "(request_allocation service = Inl ValidationError) =
     (\<exists>r. call_with_retries service 0 2 = Some r \<and> validate_response r = SchemaInvalid)"
  by (auto simp: request_allocation_def split: option.splits parsed_response.splits)

lemma request_allocation_errors:
  "request_allocation service = Inl err \<Longrightarrow>
   err = ServiceTransientError \<or> err = ValidationError"
  by (auto simp: request_allocation_def split: option.splits parsed_response.splits)

lemma allocate_fallback_eq:
  "request_allocation service = Inl err \<Longrightarrow>
   allocate designated feasibility_of service req =
     \<lparr>shares = split_budget designated default_allocation_policy (total_budget req),
      feasibility = feasibility_of req, savings_tips = [], fallback_used = True\<rparr>"
  by (simp add: allocate_def)

lemma fallback_used_iff:
  "fallback_used (allocate designated feasibility_of service req) =
     (\<exists>err. request_allocation service = Inl err)"
  by (cases "request_allocation service") (auto simp: allocate_def)

lemma synthesize_valid:
  "valid_request req \<Longrightarrow>
   \<exists>it. synthesize designated feasibility_of service retrieve context_agent narrate req = Inr it"
  by (simp add: synthesize_def Let_def)

text \<open>
  C4. Whenever the allocator takes its fallback path, that is, the fallible part ends in
  an error (the service failed on the call and on both retries, or its response failed
  validation), the allocation has the percentages flights 30, accommodation 35,
  activities 15, food 15 and transportation 5, which sum to 100, and carries the
  "fallback used" flag; and the synthesis of a valid request does not fail.
\<close>

theorem allocate_fallback_split:
  assumes "request_allocation service = Inl err"
  shows "(err = ServiceTransientError \<or> err = ValidationError)
     \<and> map (\<lambda>c. percentage (shares (allocate designated feasibility_of service req) c))
          [Flights, Accommodation, Activities, Food, Transportation] = [30, 35, 15, 15, 5]
     \<and> sum_list (map (\<lambda>c. percentage (shares (allocate designated feasibility_of service req) c))
          all_categories) = 100
     \<and> fallback_used (allocate designated feasibility_of service req)
     \<and> (valid_request req \<longrightarrow>
          (\<exists>it. synthesize designated feasibility_of service retrieve context_agent narrate req
                  = Inr it))"
  using request_allocation_errors [OF assms]
  by (simp add: allocate_fallback_eq [OF assms] split_budget_def default_allocation_policy_def
      all_categories_def synthesize_valid)

theorem allocate_fallback_split_witness:
  "request_allocation service_down = Inl ServiceTransientError
   \<and> valid_request paris_request
   \<and> fallback_used (allocate Transportation (\<lambda>r. 1) service_down paris_request)
   \<and> map (\<lambda>c. percentage (shares (allocate Transportation (\<lambda>r. 1) service_down paris_request) c))
        [Flights, Accommodation, Activities, Food, Transportation] = [30, 35, 15, 15, 5]
   \<and> (\<exists>it. synthesize Transportation (\<lambda>r. 1) service_down sample_retrieve sample_context
              narrate_down paris_request = Inr it)"
proof -
  have h: "request_allocation service_down = Inl ServiceTransientError"
    by (simp add: service_failure_iff service_down_def)
  have v: "valid_request paris_request"
    by (simp add: valid_request_def paris_request_def)
  show ?thesis
    using allocate_fallback_split [OF h, of Transportation "\<lambda>r. 1" paris_request
        sample_retrieve sample_context narrate_down] h v
    by blast
qed

text \<open>
  C8. For a request with a budget of 3000 dollars (300000 cents) and a duration of 5
  days, on the fallback path the activities amount is 450 dollars, the day budget is 90
  dollars and the per-day activity ceiling, the day budget scaled by 1.2, is 108 dollars
  exactly, whichever category is designated to absorb the rounding.
\<close>

theorem fallback_scenario_3000_5:
  assumes "request_allocation service = Inl err"
    and "total_budget req = 300000" and "duration req = 5"
  shows "amount (shares (allocate designated feasibility_of service req) Activities) = 45000
     \<and> day_budget (amount (shares (allocate designated feasibility_of service req) Activities))
          (duration req) = 9000
     \<and> day_ceiling (amount (shares (allocate designated feasibility_of service req) Activities))
          (duration req) = 10800"
proof -
  have "amount (split_budget designated default_allocation_policy 300000 Activities) = 45000"
    by (cases designated)
      (simp_all add: split_budget_def default_allocation_policy_def share_amount_def
        all_categories_def)
  then show ?thesis
    using assms(2,3)
    by (simp add: allocate_fallback_eq [OF assms(1)] day_budget_def day_ceiling_def)
qed

theorem fallback_scenario_3000_5_witness:
  "request_allocation service_down = Inl ServiceTransientError
   \<and> total_budget paris_request = 300000 \<and> duration paris_request = 5
   \<and> amount (shares (allocate Transportation (\<lambda>r. 1) service_down paris_request) Activities)
       = 45000
   \<and> day_ceiling (amount (shares (allocate Transportation (\<lambda>r. 1) service_down paris_request)
        Activities)) (duration paris_request) = 10800"
proof -
  have h: "request_allocation service_down = Inl ServiceTransientError"
    by (simp add: service_failure_iff service_down_def)
  have b: "total_budget paris_request = 300000" and d: "duration paris_request = 5"
    by (simp_all add: paris_request_def duration_def)
  show ?thesis
    using fallback_scenario_3000_5 [OF h b d, of Transportation "\<lambda>r. 1"] h b d by blast
qed

subsection \<open>Itinerary Synthesizer: the days and their costs\<close>

lemma length_schedule_days: "length (schedule_days acts D cap n q used) = n"
  by (induction n arbitrary: q used) (auto split: option.splits)

lemma length_reconcile_costs: "length (reconcile_costs r cs) = length cs"
  by (simp add: reconcile_costs_def)

lemma sum_list_reconcile_costs:
  assumes "cs \<noteq> []"
  shows "sum_list (reconcile_costs r cs) = sum_list cs + r"
proof -
  have "sum_list (butlast cs @ [last cs]) = sum_list cs"
    by (rule arg_cong [OF append_butlast_last_id [OF assms]])
  then have "sum_list (butlast cs) + last cs = sum_list cs"
    by simp
  then show ?thesis
    using assms by (simp add: reconcile_costs_def)
qed

lemma nth_reconcile_costs:
  "Suc i < length cs \<Longrightarrow> reconcile_costs r cs ! i = cs ! i"
  by (auto simp: reconcile_costs_def nth_append nth_butlast)

lemma last_reconcile_costs:
  "cs \<noteq> [] \<Longrightarrow> last (reconcile_costs r cs) = last cs + r"
  by (simp add: reconcile_costs_def)

lemma make_day_fields:
  "day_estimated_cost (make_day narrate dest ctx acc z) = snd (snd z)"
  "scheduled (make_day narrate dest ctx acc z) = fst (snd z)"
  "selected_accommodation (make_day narrate dest ctx acc z) = acc"
  by (cases z; simp add: make_day_def Let_def)+

lemma days_costs:
  assumes "length plans = D" and "length costs = D"
  shows "map day_estimated_cost
           (map (make_day narrate dest ctx acc) (zip [0..<D] (zip plans costs))) = costs"
proof -
  have "map day_estimated_cost
          (map (make_day narrate dest ctx acc) (zip [0..<D] (zip plans costs)))
        = map snd (map snd (zip [0..<D] (zip plans costs)))"
    by (simp add: make_day_fields)
  also have "\<dots> = costs"
    using assms by simp
  finally show ?thesis .
qed

lemma days_scheduled:
  assumes "length plans = D" and "length costs = D"
  shows "map scheduled
           (map (make_day narrate dest ctx acc) (zip [0..<D] (zip plans costs))) = plans"
proof -
  have "map scheduled
          (map (make_day narrate dest ctx acc) (zip [0..<D] (zip plans costs)))
        = map fst (map snd (zip [0..<D] (zip plans costs)))"
    by (simp add: make_day_fields)
  also have "\<dots> = plans"
    using assms by simp
  finally show ?thesis .
qed

lemma synthesize_itinerary_days:
  fixes narrate req alloc found ctx
  defines "it \<equiv> synthesize_itinerary narrate req alloc found ctx"
    and "plans \<equiv> schedule_days (activity_candidates found) (duration req)
          (day_ceiling (amount (shares alloc Activities)) (duration req)) (duration req)
          (activity_categories req) {}"
    and "acc \<equiv> select_accommodation (hotel_candidates found) (duration req)
          (amount (shares alloc Accommodation))"
  defines "bd \<equiv> cost_breakdown alloc acc (duration req) plans"
    and "base \<equiv> map (day_base_cost alloc (duration req)) plans"
  shows "length (days it) = duration req"
    and "map scheduled (days it) = plans"
    and "total_estimated_cost it = bd"
    and "map day_estimated_cost (days it) =
           reconcile_costs (total bd - (sum_list base + cost_accommodation bd + cost_flights bd)) base"
    and "\<forall>d \<in> set (days it). selected_accommodation d = acc"
proof -
  have lp: "length plans = duration req"
    by (simp add: plans_def length_schedule_days)
  have lb: "length base = duration req"
    by (simp add: base_def lp)
  have lc: "length (reconcile_costs r base) = duration req" for r
    by (simp add: length_reconcile_costs lb)
  have d: "days it = map (make_day narrate (req_destination req) ctx acc)
      (zip [0..<duration req] (zip plans
         (reconcile_costs (total bd - (sum_list base + cost_accommodation bd + cost_flights bd)) base)))"
    by (simp add: it_def synthesize_itinerary_def Let_def plans_def acc_def bd_def base_def)
  show "length (days it) = duration req"
    by (simp add: d lp lc)
  show "map scheduled (days it) = plans"
    unfolding d by (rule days_scheduled [OF lp lc])
  show "total_estimated_cost it = bd"
    by (simp add: it_def synthesize_itinerary_def Let_def plans_def acc_def bd_def)
  show "map day_estimated_cost (days it) =
           reconcile_costs (total bd - (sum_list base + cost_accommodation bd + cost_flights bd)) base"
    unfolding d by (rule days_costs [OF lp lc])
  show "\<forall>d \<in> set (days it). selected_accommodation d = acc"
    by (auto simp: d make_day_fields)
qed

lemma cost_breakdown_fields:
  "cost_flights (cost_breakdown alloc acc D plans) = amount (shares alloc Flights)"
  "cost_accommodation (cost_breakdown alloc acc D plans) = accommodation_total acc D"
  by (simp_all add: cost_breakdown_def Let_def)

lemma valid_request_duration: "valid_request req \<Longrightarrow> 0 < duration req"
  by (simp add: valid_request_def duration_def)

lemma synthesize_itinerary_total:
  assumes "0 < duration req"
  shows "total (total_estimated_cost (synthesize_itinerary narrate req alloc found ctx)) =
     sum_list (map day_estimated_cost (days (synthesize_itinerary narrate req alloc found ctx)))
     + cost_accommodation (total_estimated_cost (synthesize_itinerary narrate req alloc found ctx))
     + cost_flights (total_estimated_cost (synthesize_itinerary narrate req alloc found ctx))"
proof -
  have "map (day_base_cost alloc (duration req))
          (schedule_days (activity_candidates found) (duration req)
            (day_ceiling (amount (shares alloc Activities)) (duration req)) (duration req)
            (activity_categories req) {}) \<noteq> []"
    using assms by (simp add: length_schedule_days flip: length_greater_0_conv)
  then show ?thesis
    by (simp add: synthesize_itinerary_days(3,4) sum_list_reconcile_costs)
qed

lemma synthesize_itinerary_not_distributed:
  assumes "Suc i < length (days (synthesize_itinerary narrate req alloc found ctx))"
  shows "day_estimated_cost (days (synthesize_itinerary narrate req alloc found ctx) ! i) =
     day_base_cost alloc (duration req)
       (scheduled (days (synthesize_itinerary narrate req alloc found ctx) ! i))"
proof -
  let ?it = "synthesize_itinerary narrate req alloc found ctx"
  let ?plans = "schedule_days (activity_candidates found) (duration req)
          (day_ceiling (amount (shares alloc Activities)) (duration req)) (duration req)
          (activity_categories req) {}"
  have i: "Suc i < duration req"
    using assms by (simp add: synthesize_itinerary_days(1))
  then have i': "i < length (days ?it)" "i < length ?plans"
    by (simp_all add: synthesize_itinerary_days(1) length_schedule_days)
  have "day_estimated_cost (days ?it ! i) = map day_estimated_cost (days ?it) ! i"
    using i' by simp
  also have "\<dots> = map (day_base_cost alloc (duration req)) ?plans ! i"
    using i by (simp add: synthesize_itinerary_days(4) nth_reconcile_costs length_schedule_days)
  also have "\<dots> = day_base_cost alloc (duration req) (?plans ! i)"
    using i' by simp
  also have "?plans ! i = map scheduled (days ?it) ! i"
    by (simp add: synthesize_itinerary_days(2))
  also have "\<dots> = scheduled (days ?it ! i)"
    using i' by simp
  finally show ?thesis .
qed

text \<open>
  C5. For every valid request the synthesis returns an itinerary with one day plan for
  each day of the trip, whose grand total equals the sum of the day costs plus the
  accommodation total plus the flight allocation; every day before the final one keeps
  its own cost (its entries and its daily share), so that the whole remainder lies in the
  final day's cost.
\<close>

theorem itinerary_total_exact:
  assumes "valid_request req"
  shows "\<exists>it. synthesize designated feasibility_of service retrieve context_agent narrate req
               = Inr it
     \<and> length (days it) = duration req
     \<and> total (total_estimated_cost it) =
         sum_list (map day_estimated_cost (days it))
         + cost_accommodation (total_estimated_cost it)
         + cost_flights (total_estimated_cost it)
     \<and> cost_flights (total_estimated_cost it) =
         amount (shares (allocate designated feasibility_of service req) Flights)
     \<and> (\<forall>d \<in> set (days it). cost_accommodation (total_estimated_cost it) =
           accommodation_total (selected_accommodation d) (duration req))
     \<and> (\<forall>i. Suc i < length (days it) \<longrightarrow>
           day_estimated_cost (days it ! i) =
             day_base_cost (allocate designated feasibility_of service req) (duration req)
               (scheduled (days it ! i)))"
proof -
  let ?alloc = "allocate designated feasibility_of service req"
  let ?it = "synthesize_itinerary narrate req ?alloc (retrieve req ?alloc) (context_agent req)"
  have s: "synthesize designated feasibility_of service retrieve context_agent narrate req
      = Inr ?it"
    using assms by (simp add: synthesize_def Let_def)
  have "length (days ?it) = duration req"
    by (rule synthesize_itinerary_days(1))
  moreover have "total (total_estimated_cost ?it) =
         sum_list (map day_estimated_cost (days ?it))
         + cost_accommodation (total_estimated_cost ?it)
         + cost_flights (total_estimated_cost ?it)"
    by (rule synthesize_itinerary_total [OF valid_request_duration [OF assms]])
  moreover have "cost_flights (total_estimated_cost ?it) = amount (shares ?alloc Flights)"
    by (simp add: synthesize_itinerary_days(3) cost_breakdown_fields)
  moreover have "\<forall>d \<in> set (days ?it). cost_accommodation (total_estimated_cost ?it) =
           accommodation_total (selected_accommodation d) (duration req)"
    using synthesize_itinerary_days(5) [of narrate req ?alloc "retrieve req ?alloc" "context_agent req"]
    by (simp add: synthesize_itinerary_days(3) cost_breakdown_fields)
  moreover have "\<forall>i. Suc i < length (days ?it) \<longrightarrow>
           day_estimated_cost (days ?it ! i) =
             day_base_cost ?alloc (duration req) (scheduled (days ?it ! i))"
    using synthesize_itinerary_not_distributed by blast
  ultimately show ?thesis
    using s by blast
qed

theorem itinerary_total_exact_witness:
  "valid_request (paris_request\<lparr>total_budget := 300001\<rparr>)
   \<and> (\<exists>it. synthesize Transportation (\<lambda>r. 1) service_down sample_retrieve sample_context
              narrate_down (paris_request\<lparr>total_budget := 300001\<rparr>) = Inr it
         \<and> length (days it) = 5
         \<and> total (total_estimated_cost it) =
             sum_list (map day_estimated_cost (days it))
             + cost_accommodation (total_estimated_cost it)
             + cost_flights (total_estimated_cost it))
   \<and> map day_estimated_cost (days (synthesize_itinerary narrate_down
        (paris_request\<lparr>total_budget := 300001\<rparr>)
        (allocate Transportation (\<lambda>r. 1) service_down (paris_request\<lparr>total_budget := 300001\<rparr>))
        (sample_retrieve (paris_request\<lparr>total_budget := 300001\<rparr>)
           (allocate Transportation (\<lambda>r. 1) service_down
              (paris_request\<lparr>total_budget := 300001\<rparr>)))
        (sample_context (paris_request\<lparr>total_budget := 300001\<rparr>))))
       = [18000, 14200, 18000, 14200, 18001]"
proof -
  have v: "valid_request (paris_request\<lparr>total_budget := 300001\<rparr>)"
    by (simp add: valid_request_def paris_request_def)
  have d: "duration (paris_request\<lparr>total_budget := 300001\<rparr>) = 5"
    by (simp add: duration_def paris_request_def)
  have c: "map day_estimated_cost (days (synthesize_itinerary narrate_down
        (paris_request\<lparr>total_budget := 300001\<rparr>)
        (allocate Transportation (\<lambda>r. 1) service_down (paris_request\<lparr>total_budget := 300001\<rparr>))
        (sample_retrieve (paris_request\<lparr>total_budget := 300001\<rparr>)
           (allocate Transportation (\<lambda>r. 1) service_down
              (paris_request\<lparr>total_budget := 300001\<rparr>)))
        (sample_context (paris_request\<lparr>total_budget := 300001\<rparr>))))
       = [18000, 14200, 18000, 14200, 18001]"
    by code_simp
  show ?thesis
    using itinerary_total_exact [OF v, of Transportation "\<lambda>r. 1" service_down sample_retrieve
        sample_context narrate_down] v c
    unfolding d by blast
qed

subsection \<open>Itinerary Synthesizer: diversity\<close>

lemma pick_in_category_sound:
  assumes "pick_in_category acts D used running cap c = Some (r, rep)"
  shows "entry_category (entry r) = c"
    and "\<not> rep \<Longrightarrow> entry_id (entry r) \<notin> used"
    and "rep \<Longrightarrow> length (category_pool acts c) < D"
proof -
  let ?pool = "category_pool acts c"
  let ?P = "\<lambda>r. entry_id (entry r) \<notin> used \<and> running + estimated_cost (entry r) \<le> cap"
  let ?Q = "\<lambda>r. running + estimated_cost (entry r) \<le> cap"
  have "(find ?P ?pool = Some r \<and> \<not> rep)
      \<or> (find ?P ?pool = None \<and> length ?pool < D \<and> find ?Q ?pool = Some r \<and> rep)"
    using assms
    by (auto simp: pick_in_category_def Let_def split: option.splits if_splits)
  then have "r \<in> set ?pool \<and> (\<not> rep \<longrightarrow> entry_id (entry r) \<notin> used)
      \<and> (rep \<longrightarrow> length ?pool < D)"
    by (auto simp: find_Some_iff)
  then show "entry_category (entry r) = c"
    and "\<not> rep \<Longrightarrow> entry_id (entry r) \<notin> used"
    and "rep \<Longrightarrow> length (category_pool acts c) < D"
    by (auto simp: category_pool_def)
qed

lemma pick_from_queue_sound:
  assumes "pick_from_queue acts D used running cap q = Some (r, rep)"
  shows "(\<not> rep \<longrightarrow> entry_id (entry r) \<notin> used)
     \<and> (rep \<longrightarrow> length (category_pool acts (entry_category (entry r))) < D)"
  using assms
proof (induction q)
  case Nil
  then show ?case by simp
next
  case (Cons c cs)
  show ?case
  proof (cases "pick_in_category acts D used running cap c")
    case None
    with Cons show ?thesis by simp
  next
    case (Some p)
    with Cons.prems have "pick_in_category acts D used running cap c = Some (r, rep)"
      by simp
    from pick_in_category_sound [OF this] show ?thesis
      by auto
  qed
qed

lemma schedule_days_diverse:
  assumes "j < length (concat (schedule_days acts D cap n q used))"
    and "candidate (concat (schedule_days acts D cap n q used) ! j) = Some b"
    and "entry_id (entry b) \<in> used
         \<or> (\<exists>i<j. \<exists>a. candidate (concat (schedule_days acts D cap n q used) ! i) = Some a
                \<and> entry_id (entry a) = entry_id (entry b))"
  shows "repeated (concat (schedule_days acts D cap n q used) ! j)
     \<and> length (category_pool acts (entry_category (entry b))) < D"
  using assms
proof (induction n arbitrary: q used j)
  case 0
  then show ?case by simp
next
  case (Suc n)
  show ?case
  proof (cases "pick_from_queue acts D used 0 cap q")
    case None
    let ?rest = "concat (schedule_days acts D cap n (rotate_queue q) used)"
    have eq: "concat (schedule_days acts D cap (Suc n) q used) = placeholder # ?rest"
      using None by simp
    note pr = Suc.prems [unfolded eq]
    show ?thesis
      unfolding eq
    proof (cases j)
      case 0
      with pr(2) show "repeated ((placeholder # ?rest) ! j)
          \<and> length (category_pool acts (entry_category (entry b))) < D"
        by (simp add: placeholder_def)
    next
      case (Suc j')
      have 1: "j' < length ?rest"
        using pr(1) by (simp add: Suc)
      have 2: "candidate (?rest ! j') = Some b"
        using pr(2) by (simp add: Suc)
      have 3: "entry_id (entry b) \<in> used
         \<or> (\<exists>i<j'. \<exists>a. candidate (?rest ! i) = Some a
                \<and> entry_id (entry a) = entry_id (entry b))"
      proof (cases "entry_id (entry b) \<in> used")
        case True
        then show ?thesis by simp
      next
        case False
        with pr(3) obtain i a where i: "i < j"
          "candidate ((placeholder # ?rest) ! i) = Some a"
          "entry_id (entry a) = entry_id (entry b)"
          by auto
        then obtain i' where "i = Suc i'"
          by (cases i) (auto simp: placeholder_def)
        with i show ?thesis
          by (auto simp: Suc)
      qed
      from Suc.IH [OF 1 2 3] show "repeated ((placeholder # ?rest) ! j)
          \<and> length (category_pool acts (entry_category (entry b))) < D"
        by (simp add: Suc)
    qed
  next
    case (Some p)
    obtain r rep where p: "p = (r, rep)"
      by (cases p)
    let ?x = "\<lparr>candidate = Some r, time_slot = 0, activity_cost = estimated_cost (entry r),
            repeated = rep\<rparr>"
    let ?used = "insert (entry_id (entry r)) used"
    let ?rest = "concat (schedule_days acts D cap n (rotate_queue q) ?used)"
    have eq: "concat (schedule_days acts D cap (Suc n) q used) = ?x # ?rest"
      using Some by (simp add: p)
    note pr = Suc.prems [unfolded eq]
    note sound = pick_from_queue_sound [OF Some [unfolded p]]
    show ?thesis
      unfolding eq
    proof (cases j)
      case 0
      with pr(2) have b: "b = r"
        by simp
      from pr(3) have "entry_id (entry r) \<in> used"
        by (simp add: 0 b)
      with sound show "repeated ((?x # ?rest) ! j)
          \<and> length (category_pool acts (entry_category (entry b))) < D"
        by (auto simp: 0 b)
    next
      case (Suc j')
      have 1: "j' < length ?rest"
        using pr(1) by (simp add: Suc)
      have 2: "candidate (?rest ! j') = Some b"
        using pr(2) by (simp add: Suc)
      have 3: "entry_id (entry b) \<in> ?used
         \<or> (\<exists>i<j'. \<exists>a. candidate (?rest ! i) = Some a
                \<and> entry_id (entry a) = entry_id (entry b))"
      proof (cases "entry_id (entry b) \<in> used")
        case True
        then show ?thesis by simp
      next
        case False
        with pr(3) obtain i a where i: "i < j"
          "candidate ((?x # ?rest) ! i) = Some a"
          "entry_id (entry a) = entry_id (entry b)"
          by auto
        show ?thesis
        proof (cases i)
          case 0
          with i show ?thesis by simp
        next
          case (Suc i')
          with i show ?thesis
            by (auto simp: \<open>j = Suc j'\<close>)
        qed
      qed
      from Suc.IH [OF 1 2 3] show "repeated ((?x # ?rest) ! j)
          \<and> length (category_pool acts (entry_category (entry b))) < D"
        by (simp add: Suc)
    qed
  qed
qed

lemma scheduled_entries_synthesize_itinerary:
  "scheduled_entries (synthesize_itinerary narrate req alloc found ctx) =
     concat (schedule_days (activity_candidates found) (duration req)
       (day_ceiling (amount (shares alloc Activities)) (duration req)) (duration req)
       (activity_categories req) {})"
  by (simp add: scheduled_entries_def synthesize_itinerary_days(2))

text \<open>
  C7. In an itinerary returned by the synthesis, when two scheduled entries at different
  places hold candidates with the same catalog entry id, the later one carries the
  repetition flag and the pool of its category is smaller than the duration of the trip.
\<close>

theorem no_unflagged_repetition:
  assumes "synthesize designated feasibility_of service retrieve context_agent narrate req
             = Inr it"
    and "i < j" and "j < length (scheduled_entries it)"
    and "candidate (scheduled_entries it ! i) = Some a"
    and "candidate (scheduled_entries it ! j) = Some b"
    and "entry_id (entry a) = entry_id (entry b)"
  shows "repeated (scheduled_entries it ! j)
     \<and> length (category_pool
          (activity_candidates (retrieve req (allocate designated feasibility_of service req)))
          (entry_category (entry b))) < duration req"
proof -
  let ?alloc = "allocate designated feasibility_of service req"
  have it: "it = synthesize_itinerary narrate req ?alloc (retrieve req ?alloc) (context_agent req)"
    using assms(1) by (simp add: synthesize_def Let_def split: if_splits)
  have ex: "entry_id (entry b) \<in> {}
     \<or> (\<exists>i<j. \<exists>a. candidate (scheduled_entries it ! i) = Some a
            \<and> entry_id (entry a) = entry_id (entry b))"
    using assms(2,4,6) by blast
  show ?thesis
    using schedule_days_diverse [of j "activity_candidates (retrieve req ?alloc)" "duration req"
        "day_ceiling (amount (shares ?alloc Activities)) (duration req)" "duration req"
        "activity_categories req" "{}" b]
      assms(3,5) ex
    unfolding it scheduled_entries_synthesize_itinerary by blast
qed

lemma sample_itinerary_synthesized:
  "synthesize Transportation (\<lambda>r. 1) service_down sample_retrieve sample_context narrate_down
     paris_request = Inr sample_itinerary"
  by (simp add: synthesize_def Let_def sample_itinerary_def valid_request_def paris_request_def)

theorem no_unflagged_repetition_witness:
  "synthesize Transportation (\<lambda>r. 1) service_down sample_retrieve sample_context narrate_down
     paris_request = Inr sample_itinerary
   \<and> candidate (scheduled_entries sample_itinerary ! 0)
       = Some \<lparr>entry = bistro, score = 9 / 10, cost_flag = False\<rparr>
   \<and> candidate (scheduled_entries sample_itinerary ! 2)
       = Some \<lparr>entry = bistro, score = 9 / 10, cost_flag = False\<rparr>
   \<and> repeated (scheduled_entries sample_itinerary ! 2)
   \<and> length (category_pool
        (activity_candidates (sample_retrieve paris_request
           (allocate Transportation (\<lambda>r. 1) service_down paris_request)))
        (entry_category (entry \<lparr>entry = bistro, score = 9 / 10, cost_flag = False\<rparr>)))
       < duration paris_request"
proof -
  let ?b = "\<lparr>entry = bistro, score = 9 / 10, cost_flag = False\<rparr>"
  have l: "(0::nat) < 2" "2 < length (scheduled_entries sample_itinerary)"
    by code_simp+
  have c0: "candidate (scheduled_entries sample_itinerary ! 0) = Some ?b"
    by code_simp
  have c2: "candidate (scheduled_entries sample_itinerary ! 2) = Some ?b"
    by code_simp
  show ?thesis
    using no_unflagged_repetition [OF sample_itinerary_synthesized l c0 c2]
      sample_itinerary_synthesized c0 c2
    by blast
qed

subsection \<open>Ranking and determinism\<close>








subsection \<open>What the narrative service can change\<close>











end
